theory Spec2Isabelle
  imports Complex_Main "HOL-Library.AList"
begin

section \<open>Python values: errors and dictionaries\<close>

text \<open>
  The exceptions that the methods of \<open>Segment\<close> can raise. \<open>KeyError\<close> carries the
  missing key when a dictionary lookup fails on a string key, or the message of the
  explicit \<open>raise\<close> in \<open>__setitem__\<close>; \<open>KeyErrorValue\<close> is the \<open>KeyError\<close> of a lookup
  in the number-to-symbol table, whose keys are integers. \<open>RegexError\<close> is the
  \<open>error\<close> exception of the regular-expression package, with its message.
  \<open>PatternNotModelled\<close> marks pattern syntax outside the fragment modelled below.
\<close>

datatype error =
    KeyError string
  | KeyErrorValue int
  | NameError string
  | ZeroDivisionError
  | RegexError string
  | PatternNotModelled

text \<open>
  A dictionary with string keys is an association list in insertion order. Python
  keeps the keys of a dictionary distinct; \<open>dict_ok\<close> states it. Equality of
  dictionaries in Python ignores the order, so results are compared through \<open>map_of\<close>.
\<close>

type_synonym 'v dict = "(string \<times> 'v) list"

definition dict_ok :: "'v dict \<Rightarrow> bool" where
  "dict_ok d = distinct (map fst d)"

text \<open>\<open>d[k]\<close>: the stored value, or \<open>KeyError(k)\<close>.\<close>

definition dict_get :: "'v dict \<Rightarrow> string \<Rightarrow> error + 'v" where
  "dict_get d k = (case map_of d k of None \<Rightarrow> Inl (KeyError k) | Some v \<Rightarrow> Inr v)"

text \<open>\<open>d[k] = v\<close>: replaces the value of an existing key in place, appends a new key.\<close>

definition dict_set :: "'v dict \<Rightarrow> string \<Rightarrow> 'v \<Rightarrow> 'v dict" where
  "dict_set d k v = AList.update k v d"

text \<open>\<open>d.update(src)\<close> for a mapping \<open>src\<close>: every pair of \<open>src\<close> is assigned in turn.\<close>

definition dict_update :: "'v dict \<Rightarrow> 'v dict \<Rightarrow> 'v dict" where
  "dict_update d src = fold (\<lambda>(k, v) acc. dict_set acc k v) src d"

text \<open>\<open>dict(pairs)\<close>: built by successive assignment, so a later pair wins.\<close>

definition dict_of_pairs :: "(string \<times> 'v) list \<Rightarrow> 'v dict" where
  "dict_of_pairs ps = fold (\<lambda>(k, v) acc. dict_set acc k v) ps []"

text \<open>
  A Python set is a duplicate-free list whose order carries no meaning; \<open>set_and\<close> is
  the operator \<open>&\<close> on two sets.
\<close>

definition py_set :: "'a list \<Rightarrow> 'a list" where
  "py_set xs = remdups xs"

definition set_and :: "'a list \<Rightarrow> 'a list \<Rightarrow> 'a list" where
  "set_and xs ys = filter (\<lambda>x. x \<in> set ys) xs"

text \<open>
  A list comprehension whose element expression can raise: the elements are computed
  left to right and the first exception ends the comprehension.
\<close>

fun collect :: "('a \<Rightarrow> error + 'b) \<Rightarrow> 'a list \<Rightarrow> error + 'b list" where
  "collect f [] = Inr []"
| "collect f (x # xs) =
     (case f x of
        Inl e \<Rightarrow> Inl e
      | Inr y \<Rightarrow> (case collect f xs of Inl e \<Rightarrow> Inl e | Inr ys \<Rightarrow> Inr (y # ys)))"

section \<open>The class \<open>Segment\<close>\<close>

text \<open>
  The attributes \<open>names\<close> and \<open>data\<close> of an instance. The two translation tables
  \<open>n2s\<close> and \<open>s2n\<close> are assigned once in \<open>__init__\<close> from literals and never written
  again, so they are constants here. Feature values are of any type \<open>'v\<close> where the
  code only stores and compares them, and Python integers where it computes with them.
\<close>

record 'v segment =
  names :: "string list"
  data :: "'v dict"

definition n2s :: "(int \<times> string) list" where
  "n2s = [(- 1, ''-''), (0, ''0''), (1, ''+'')]"

text \<open>\<open>{k: v for (v, k) in self.n2s.items()}\<close>\<close>

definition s2n :: "int dict" where
  "s2n = dict_of_pairs (map (\<lambda>(v, k). (k, v)) n2s)"

text \<open>\<open>self.n2s[x]\<close>\<close>

definition n2s_get :: "int \<Rightarrow> error + string" where
  "n2s_get x = (case map_of n2s x of None \<Rightarrow> Inl (KeyErrorValue x) | Some s \<Rightarrow> Inr s)"

subsection \<open>Field access\<close>

definition getitem :: "'v segment \<Rightarrow> string \<Rightarrow> error + 'v" where
  "getitem self key = dict_get (data self) key"

text \<open>
  \<open>__setitem__\<close> mutates the instance, so the model returns the outcome of the call
  together with the instance as it is afterwards.
\<close>

definition setitem :: "'v segment \<Rightarrow> string \<Rightarrow> 'v \<Rightarrow> (error + unit) \<times> 'v segment" where
  "setitem self key val =
     (if key \<in> set (names self)
      then (Inr (), self\<lparr>data := dict_set (data self) key val\<rparr>)
      else (Inl (KeyError ''Unknown feature name.''), self))"

text \<open>\<open>__iter__\<close>: the feature names in schema order.\<close>

definition iter :: "'v segment \<Rightarrow> string list" where
  "iter self = names self"

definition items :: "'v segment \<Rightarrow> error + (string \<times> 'v) list" where
  "items self =
     collect (\<lambda>k. case dict_get (data self) k of Inl e \<Rightarrow> Inl e | Inr v \<Rightarrow> Inr (k, v))
       (names self)"

definition iteritems :: "'v segment \<Rightarrow> error + (string \<times> 'v) list" where
  "iteritems self =
     collect (\<lambda>k. case dict_get (data self) k of Inl e \<Rightarrow> Inl e | Inr v \<Rightarrow> Inr (k, v))
       (names self)"

text \<open>
  \<open>update\<close> hands its argument to \<open>dict.update\<close>; the argument modelled here is a
  mapping of (name, value) pairs. No membership test against \<open>names\<close> takes place.
\<close>

definition update :: "'v segment \<Rightarrow> 'v dict \<Rightarrow> 'v segment" where
  "update self src = self\<lparr>data := dict_update (data self) src\<rparr>"

subsection \<open>Projections\<close>

definition numeric :: "'v segment \<Rightarrow> error + 'v list" where
  "numeric self = collect (\<lambda>k. dict_get (data self) k) (names self)"

text \<open>
  \<open>string\<close> maps the table lookup over \<open>numeric()\<close>. Under Python 3 the \<open>map\<close> object
  is lazy; the model gives the sequence it yields when it is consumed.
\<close>

definition string :: "int segment \<Rightarrow> error + string list" where
  "string self =
     (case numeric self of Inl e \<Rightarrow> Inl e | Inr xs \<Rightarrow> collect n2s_get xs)"

text \<open>\<open>', '.join(parts)\<close>\<close>

fun join :: "string \<Rightarrow> string list \<Rightarrow> string" where
  "join sep [] = []"
| "join sep [x] = x"
| "join sep (x # y # ys) = x @ sep @ join sep (y # ys)"

definition repr :: "int segment \<Rightarrow> error + string" where
  "repr self =
     (case collect (\<lambda>k. case dict_get (data self) k of
                           Inl e \<Rightarrow> Inl e
                         | Inr x \<Rightarrow> (case n2s_get x of Inl e \<Rightarrow> Inl e | Inr s \<Rightarrow> Inr (s, k)))
             (names self) of
        Inl e \<Rightarrow> Inl e
      | Inr pairs \<Rightarrow> Inr (''['' @ join '', '' (map (\<lambda>(s, k). s @ k) pairs) @ '']''))"

subsection \<open>Structural operations\<close>

text \<open>
  The body of \<open>match\<close> reads the variable \<open>features\<close>. The names bound in the body
  are the parameters \<open>self\<close> and \<open>other\<close>; the module binds \<open>re\<close>, \<open>Segment\<close> and the
  four names imported from \<open>__future__\<close>. \<open>match_scope\<close> gives the mappings that a
  variable of the body can denote, and \<open>lookup_var\<close> resolves a name as Python does:
  a name that is bound nowhere raises \<open>NameError\<close>.
\<close>

definition match_scope :: "'v dict \<Rightarrow> (string \<times> 'v dict) list" where
  "match_scope other = [(''other'', other)]"

definition lookup_var :: "(string \<times> 'a) list \<Rightarrow> string \<Rightarrow> error + 'a" where
  "lookup_var scope x = (case map_of scope x of None \<Rightarrow> Inl (NameError x) | Some a \<Rightarrow> Inr a)"

text \<open>\<open>all([self.data[k] == v for (k, v) in features.items()])\<close>\<close>

definition match :: "'v segment \<Rightarrow> 'v dict \<Rightarrow> error + bool" where
  "match self other =
     (case lookup_var (match_scope other) ''features'' of
        Inl e \<Rightarrow> Inl e
      | Inr features \<Rightarrow>
          (case collect (\<lambda>(k, v). case dict_get (data self) k of
                                     Inl e \<Rightarrow> Inl e
                                   | Inr x \<Rightarrow> Inr (x = v)) features of
             Inl e \<Rightarrow> Inl e
           | Inr bs \<Rightarrow> Inr (list_all (\<lambda>b. b) bs)))"

definition ge :: "'v segment \<Rightarrow> 'v dict \<Rightarrow> error + bool" where
  "ge self other = match self other"

text \<open>\<open>dict(set(self.data.items()) & set(other.data.items()))\<close>\<close>

definition intersection :: "'v segment \<Rightarrow> 'v segment \<Rightarrow> 'v dict" where
  "intersection self other =
     dict_of_pairs (set_and (py_set (data self)) (py_set (data other)))"

definition and_op :: "'v segment \<Rightarrow> 'v segment \<Rightarrow> 'v dict" where
  "and_op self other = intersection self other"

subsection \<open>Distance metrics\<close>

text \<open>
  Both vectors are computed before \<open>zip\<close> pairs them, \<open>self\<close> first; \<open>zip\<close> stops at
  the end of the shorter one.
\<close>

definition distance :: "int segment \<Rightarrow> int segment \<Rightarrow> error + int" where
  "distance self other =
     (case numeric self of
        Inl e \<Rightarrow> Inl e
      | Inr xs \<Rightarrow>
          (case numeric other of
             Inl e \<Rightarrow> Inl e
           | Inr ys \<Rightarrow> Inr (sum_list (map (\<lambda>(a, b). \<bar>a - b\<bar>) (zip xs ys)))))"

definition hamming_distance :: "'v segment \<Rightarrow> 'v segment \<Rightarrow> error + int" where
  "hamming_distance self other =
     (case numeric self of
        Inl e \<Rightarrow> Inl e
      | Inr xs \<Rightarrow>
          (case numeric other of
             Inl e \<Rightarrow> Inl e
           | Inr ys \<Rightarrow> Inr (sum_list (map (\<lambda>(a, b). if a \<noteq> b then 1 else 0) (zip xs ys)))))"

text \<open>
  The module imports \<open>division\<close> from \<open>__future__\<close>, so \<open>/\<close> on two integers is true
  division: \<open>ZeroDivisionError\<close> for a zero divisor, otherwise the floating-point
  quotient. The floating-point quotient of two integers (which may itself raise, for a
  quotient beyond the range of a float) is the parameter \<open>fdiv\<close>.
\<close>

definition truediv :: "(int \<Rightarrow> int \<Rightarrow> error + 'f) \<Rightarrow> int \<Rightarrow> int \<Rightarrow> error + 'f" where
  "truediv fdiv a b = (if b = 0 then Inl ZeroDivisionError else fdiv a b)"

definition norm_distance ::
  "(int \<Rightarrow> int \<Rightarrow> error + 'f) \<Rightarrow> int segment \<Rightarrow> int segment \<Rightarrow> error + 'f" where
  "norm_distance fdiv self other =
     (case distance self other of
        Inl e \<Rightarrow> Inl e
      | Inr d \<Rightarrow> truediv fdiv d (int (length (names self))))"

definition sub ::
  "(int \<Rightarrow> int \<Rightarrow> error + 'f) \<Rightarrow> int segment \<Rightarrow> int segment \<Rightarrow> error + 'f" where
  "sub fdiv self other = norm_distance fdiv self other"

definition norm_hamming_distance ::
  "(int \<Rightarrow> int \<Rightarrow> error + 'f) \<Rightarrow> 'v segment \<Rightarrow> 'v segment \<Rightarrow> error + 'f" where
  "norm_hamming_distance fdiv self other =
     (case hamming_distance self other of
        Inl e \<Rightarrow> Inl e
      | Inr d \<Rightarrow> truediv fdiv d (int (length (names self))))"

section \<open>Construction\<close>

subsection \<open>The pattern of the notation scanner\<close>

text \<open>
  \<open>__init__\<close> calls \<open>re.finditer\<close> with a pattern literal, where \<open>re\<close> is the
  third-party package \<open>regex\<close>. \<open>finditer\<close> compiles the pattern before it looks at
  the text. The compiler is modelled for the pattern syntax that the literal uses:
  a group \<open>( )\<close>, alternation \<open>|\<close>, the quantifier \<open>+\<close>, the class escape
  \<open>\w\<close>, and literal characters. It reads the pattern from left to right and keeps a
  stack of open groups; each frame holds the finished alternatives of the group and the
  sequence being read. A quantifier applies to the last item of the sequence being
  read; at the start of a sequence there is none, and the compiler raises
  \<open>nothing to repeat\<close>.
\<close>

datatype regex =
    Lit char
  | WordChar
  | Rep1 regex
  | Group "regex list list"

type_synonym frame = "regex list list \<times> regex list"

record parser =
  stack :: "frame list"
  current :: frame
  escaped :: bool

definition add_item :: "regex \<Rightarrow> frame \<Rightarrow> frame" where
  "add_item r f = (fst f, snd f @ [r])"

definition close_frame :: "frame \<Rightarrow> regex list list" where
  "close_frame f = fst f @ [snd f]"

definition parse_char :: "char \<Rightarrow> parser \<Rightarrow> error + parser" where
  "parse_char c p =
     (if escaped p then
        (if c = CHR ''w''
         then Inr (p\<lparr>current := add_item WordChar (current p), escaped := False\<rparr>)
         else Inl PatternNotModelled)
      else if c = CHR 0x5C then Inr (p\<lparr>escaped := True\<rparr>)
      else if c = CHR ''('' then Inr (p\<lparr>stack := current p # stack p, current := ([], [])\<rparr>)
      else if c = CHR '')'' then
        (case stack p of
           [] \<Rightarrow> Inl (RegexError ''unbalanced parenthesis'')
         | f # fs \<Rightarrow>
             Inr (p\<lparr>stack := fs, current := add_item (Group (close_frame (current p))) f\<rparr>))
      else if c = CHR ''|'' then Inr (p\<lparr>current := (close_frame (current p), [])\<rparr>)
      else if c = CHR ''+'' then
        (case rev (snd (current p)) of
           [] \<Rightarrow> Inl (RegexError ''nothing to repeat'')
         | Rep1 r # rs \<Rightarrow> Inl PatternNotModelled
         | r # rs \<Rightarrow> Inr (p\<lparr>current := (fst (current p), rev (Rep1 r # rs))\<rparr>))
      else if c \<in> set ''*?.[]{}^$'' then Inl PatternNotModelled
      else Inr (p\<lparr>current := add_item (Lit c) (current p)\<rparr>))"

fun parse_chars :: "string \<Rightarrow> parser \<Rightarrow> error + parser" where
  "parse_chars [] p = Inr p"
| "parse_chars (c # cs) p =
     (case parse_char c p of Inl e \<Rightarrow> Inl e | Inr p' \<Rightarrow> parse_chars cs p')"

definition re_compile :: "string \<Rightarrow> error + regex" where
  "re_compile pat =
     (case parse_chars pat \<lparr>stack = [], current = ([], []), escaped = False\<rparr> of
        Inl e \<Rightarrow> Inl e
      | Inr p \<Rightarrow>
          if escaped p then Inl (RegexError ''bad escape (end of pattern)'')
          else if stack p \<noteq> [] then Inl (RegexError ''missing )'')
          else Inr (Group (close_frame (current p))))"

text \<open>
  Scanning a text with a compiled pattern is the work of the package; it is the
  parameter \<open>scan\<close>, which gives the two groups of each match, in scan order.
\<close>

definition finditer ::
  "(regex \<Rightarrow> string \<Rightarrow> (string \<times> string) list) \<Rightarrow> string \<Rightarrow> string \<Rightarrow>
     error + (string \<times> string) list" where
  "finditer scan pat s = (case re_compile pat of Inl e \<Rightarrow> Inl e | Inr r \<Rightarrow> Inr (scan r s))"

text \<open>The pattern literal of \<open>__init__\<close>: \<open>(+|0|-)(\w+)\<close>.\<close>

definition ftstr_pattern :: string where
  "ftstr_pattern = ''(+|0|-)('' @ [CHR 0x5C] @ ''w+)''"

subsection \<open>\<open>__init__\<close>\<close>

text \<open>The first loop: every schema name gets the value from \<open>features\<close>, or 0.\<close>

definition init_fill :: "string list \<Rightarrow> int dict \<Rightarrow> int dict" where
  "init_fill nms features =
     fold (\<lambda>name d. case map_of features name of
                       Some v \<Rightarrow> dict_set d name v
                     | None \<Rightarrow> dict_set d name 0) nms []"

text \<open>The second loop: \<open>v, k = m.groups(); self.data[k] = self.s2n[v]\<close> for each match.\<close>

fun apply_matches :: "(string \<times> string) list \<Rightarrow> int dict \<Rightarrow> error + int dict" where
  "apply_matches [] d = Inr d"
| "apply_matches ((v, k) # ms) d =
     (case dict_get s2n v of
        Inl e \<Rightarrow> Inl e
      | Inr x \<Rightarrow> apply_matches ms (dict_set d k x))"

definition Segment_init ::
  "(regex \<Rightarrow> string \<Rightarrow> (string \<times> string) list) \<Rightarrow> string list \<Rightarrow> int dict \<Rightarrow> string \<Rightarrow>
     error + int segment" where
  "Segment_init scan nms features ftstr =
     (let d = init_fill nms features in
      case finditer scan ftstr_pattern ftstr of
        Inl e \<Rightarrow> Inl e
      | Inr ms \<Rightarrow>
          (case apply_matches ms d of
             Inl e \<Rightarrow> Inl e
           | Inr d' \<Rightarrow> Inr \<lparr>names = nms, data = d'\<rparr>))"

section \<open>Properties of instances\<close>

text \<open>
  An instance is conformant when \<open>data\<close> has an entry for every name of its schema,
  and ternary-valued when each of these entries is one of \<open>-1\<close>, \<open>0\<close>, \<open>+1\<close>.
\<close>

definition conformant :: "'v segment \<Rightarrow> bool" where
  "conformant s = list_all (\<lambda>n. map_of (data s) n \<noteq> None) (names s)"

definition ternary_valued :: "int segment \<Rightarrow> bool" where
  "ternary_valued s =
     list_all (\<lambda>n. case map_of (data s) n of None \<Rightarrow> False | Some x \<Rightarrow> x \<in> {- 1, 0, 1})
       (names s)"

text \<open>The part of a mapping whose keys are names of the schema of \<open>s\<close>.\<close>

definition schema_part :: "'v segment \<Rightarrow> 'v dict \<Rightarrow> 'v dict" where
  "schema_part s m = filter (\<lambda>(k, v). k \<in> set (names s)) m"

section \<open>Auxiliary facts about dictionaries and comprehensions\<close>

lemma collect_cong:
  "(\<And>x. x \<in> set xs \<Longrightarrow> f x = g x) \<Longrightarrow> collect f xs = collect g xs"
  by (induction xs) (auto split: sum.splits)

lemma collect_total:
  "(\<And>x. x \<in> set xs \<Longrightarrow> f x = Inr (g x)) \<Longrightarrow> collect f xs = Inr (map g xs)"
  by (induction xs) (auto split: sum.splits)

lemma map_of_dict_set: "map_of (dict_set d k v) = (map_of d)(k \<mapsto> v)"
  by (simp add: dict_set_def update_conv')

lemma map_of_fold_set:
  "map_of (fold (\<lambda>(k, v) acc. dict_set acc k v) src d) = map_of d ++ map_of (rev src)"
proof (induction src arbitrary: d)
  case Nil
  show ?case by simp
next
  case (Cons p ps)
  obtain k v where p: "p = (k, v)" by (cases p)
  have "fold (\<lambda>(k, v) acc. dict_set acc k v) (p # ps) d
        = fold (\<lambda>(k, v) acc. dict_set acc k v) ps (dict_set d k v)"
    by (simp add: p)
  then have "map_of (fold (\<lambda>(k, v) acc. dict_set acc k v) (p # ps) d)
        = map_of (dict_set d k v) ++ map_of (rev ps)"
    using Cons.IH by simp
  also have "\<dots> = (map_of d)(k \<mapsto> v) ++ map_of (rev ps)"
    by (simp only: map_of_dict_set)
  also have "\<dots> = map_of d ++ map_of (rev (p # ps))"
    by (simp add: p map_add_upd_left)
  finally show ?case .
qed

lemma map_of_rev_distinct:
  "distinct (map fst ps) \<Longrightarrow> map_of (rev ps) = map_of ps"
  by (induction ps) (auto simp: map_add_def fun_eq_iff split: option.splits dest: map_of_SomeD intro: rev_image_eqI)

lemma dict_ok_fold_set:
  "dict_ok d \<Longrightarrow> dict_ok (fold (\<lambda>(k, v) acc. dict_set acc k v) src d)"
  by (induction src arbitrary: d) (auto simp: dict_ok_def dict_set_def distinct_update)

lemma map_of_dict_of_pairs:
  "dict_ok ps \<Longrightarrow> map_of (dict_of_pairs ps) = map_of ps"
  by (simp add: dict_of_pairs_def map_of_fold_set map_of_rev_distinct dict_ok_def)

lemma dict_ok_dict_of_pairs: "dict_ok (dict_of_pairs ps)"
  unfolding dict_of_pairs_def by (rule dict_ok_fold_set) (simp add: dict_ok_def)

lemma py_set_dict: "dict_ok d \<Longrightarrow> py_set d = d"
  by (simp add: py_set_def dict_ok_def distinct_map)

lemma dict_ok_set_and: "dict_ok d \<Longrightarrow> dict_ok (set_and d e)"
  by (simp add: dict_ok_def set_and_def distinct_map_filter)

lemma set_intersection:
  assumes "dict_ok (data a)" "dict_ok (data b)"
  shows "set (intersection a b) = set (data a) \<inter> set (data b)"
proof -
  let ?ps = "set_and (data a) (data b)"
  have ok: "dict_ok ?ps" using assms(1) by (rule dict_ok_set_and)
  have "map_of (dict_of_pairs ?ps) = map_of ?ps" using ok by (rule map_of_dict_of_pairs)
  then have "set (dict_of_pairs ?ps) = set ?ps"
    using ok dict_ok_dict_of_pairs [of ?ps] by (simp add: dict_ok_def map_of_inject_set)
  then show ?thesis
    using assms by (auto simp: intersection_def py_set_dict set_and_def)
qed

section \<open>Intersection\<close>

text \<open>
  Claim C5. For two instances \<open>a\<close> and \<open>b\<close>, \<open>a.intersection(b)\<close> (and \<open>a & b\<close>) is
  the dictionary of exactly those (name, value) pairs that occur in both \<open>a.data\<close> and
  \<open>b.data\<close> with the same name and the same value. A name that both dictionaries hold
  with different values has no entry in the result.
\<close>

theorem intersection_identical_pairs:
  assumes "dict_ok (data a)" and "dict_ok (data b)"
  shows "dict_ok (intersection a b)
       \<and> set (intersection a b) = set (data a) \<inter> set (data b)
       \<and> (\<forall>k. map_of (intersection a b) k =
                (if map_of (data a) k = map_of (data b) k then map_of (data a) k else None))
       \<and> and_op a b = intersection a b"
proof -
  have ok: "dict_ok (intersection a b)"
    by (simp add: intersection_def dict_ok_dict_of_pairs)
  have st: "set (intersection a b) = set (data a) \<inter> set (data b)"
    using assms by (rule set_intersection)
  have lk: "map_of (intersection a b) k =
              (if map_of (data a) k = map_of (data b) k then map_of (data a) k else None)" for k
  proof (cases "map_of (intersection a b) k")
    case None
    then have "\<forall>v. (k, v) \<notin> set (intersection a b)"
      by (metis map_of_eq_None_iff fst_conv image_eqI)
    then have "\<forall>v. \<not> (map_of (data a) k = Some v \<and> map_of (data b) k = Some v)"
      using st assms by (auto simp: dict_ok_def)
    then show ?thesis using None by (cases "map_of (data a) k") auto
  next
    case (Some v)
    then have "(k, v) \<in> set (intersection a b)" by (rule map_of_SomeD)
    then have "map_of (data a) k = Some v \<and> map_of (data b) k = Some v"
      using st assms by (auto simp: dict_ok_def)
    then show ?thesis using Some by simp
  qed
  show ?thesis using ok st lk by (simp add: and_op_def)
qed

theorem intersection_identical_pairs_witness:
  "dict_ok [(''voice'', 1::int), (''nasal'', - 1), (''round'', 0)]
   \<and> dict_ok [(''voice'', 1::int), (''nasal'', 1), (''round'', 0)]
   \<and> set (intersection
       \<lparr>names = [''voice'', ''nasal'', ''round''],
        data = [(''voice'', 1::int), (''nasal'', - 1), (''round'', 0)]\<rparr>
       \<lparr>names = [''voice'', ''nasal'', ''round''],
        data = [(''voice'', 1), (''nasal'', 1), (''round'', 0)]\<rparr>)
     = {(''voice'', 1), (''round'', 0)}"
proof -
  have a: "dict_ok (data \<lparr>names = [''voice'', ''nasal'', ''round''],
        data = [(''voice'', 1::int), (''nasal'', - 1), (''round'', 0)]\<rparr>)"
    by (simp add: dict_ok_def)
  have b: "dict_ok (data \<lparr>names = [''voice'', ''nasal'', ''round''],
        data = [(''voice'', 1::int), (''nasal'', 1), (''round'', 0)]\<rparr>)"
    by (simp add: dict_ok_def)
  show ?thesis
    using intersection_identical_pairs [OF a b] a b by auto
qed

section \<open>Item assignment\<close>

text \<open>
  Claim C4. For an instance \<open>s\<close> and a name \<open>k\<close>: when \<open>k\<close> is not in \<open>s.names\<close>, the
  assignment \<open>s[k] = v\<close> fails with the \<open>KeyError\<close> for an unknown feature name; when
  \<open>k\<close> is in \<open>s.names\<close>, the assignment succeeds for any value \<open>v\<close>, and reading
  \<open>s[k]\<close> afterwards gives \<open>v\<close>.
\<close>

theorem setitem_validates_name:
  "(k \<notin> set (names s) \<longrightarrow>
      fst (setitem s k v) = Inl (KeyError ''Unknown feature name.''))
   \<and> (k \<in> set (names s) \<longrightarrow>
      fst (setitem s k v) = Inr () \<and> getitem (snd (setitem s k v)) k = Inr v)"
  by (simp add: setitem_def getitem_def dict_get_def map_of_dict_set)

theorem setitem_validates_name_witness:
  "''tone'' \<notin> set (names \<lparr>names = [''voice'', ''nasal''], data = [(''voice'', 1::int), (''nasal'', 0)]\<rparr>)
   \<and> fst (setitem \<lparr>names = [''voice'', ''nasal''], data = [(''voice'', 1::int), (''nasal'', 0)]\<rparr>
          ''tone'' 1) = Inl (KeyError ''Unknown feature name.'')
   \<and> ''nasal'' \<in> set (names \<lparr>names = [''voice'', ''nasal''], data = [(''voice'', 1::int), (''nasal'', 0)]\<rparr>)
   \<and> fst (setitem \<lparr>names = [''voice'', ''nasal''], data = [(''voice'', 1::int), (''nasal'', 0)]\<rparr>
          ''nasal'' (- 1)) = Inr ()
   \<and> getitem (snd (setitem \<lparr>names = [''voice'', ''nasal''], data = [(''voice'', 1::int), (''nasal'', 0)]\<rparr>
          ''nasal'' (- 1))) ''nasal'' = Inr (- 1)"
  using setitem_validates_name
      [of "''tone''" "\<lparr>names = [''voice'', ''nasal''], data = [(''voice'', 1::int), (''nasal'', 0)]\<rparr>" 1]
    setitem_validates_name
      [of "''nasal''" "\<lparr>names = [''voice'', ''nasal''], data = [(''voice'', 1::int), (''nasal'', 0)]\<rparr>" "- 1"]
  by simp

text \<open>
  Claim C10. A failing item assignment changes nothing: for a name \<open>k\<close> that is not
  in \<open>s.names\<close>, \<open>s[k] = v\<close> raises before any mutation, and the instance, with its
  \<open>data\<close> and its \<open>names\<close>, is afterwards what it was before the call.
\<close>

theorem setitem_failure_leaves_instance:
  "k \<notin> set (names s) \<Longrightarrow> setitem s k v = (Inl (KeyError ''Unknown feature name.''), s)"
  by (simp add: setitem_def)

theorem setitem_failure_leaves_instance_witness:
  "''tone'' \<notin> set (names \<lparr>names = [''voice''], data = [(''voice'', 1::int)]\<rparr>)
   \<and> setitem \<lparr>names = [''voice''], data = [(''voice'', 1::int)]\<rparr> ''tone'' 1
       = (Inl (KeyError ''Unknown feature name.''),
          \<lparr>names = [''voice''], data = [(''voice'', 1::int)]\<rparr>)"
proof -
  have h: "''tone'' \<notin> set (names \<lparr>names = [''voice''], data = [(''voice'', 1::int)]\<rparr>)"
    by simp
  show ?thesis
    using h setitem_failure_leaves_instance [OF h, of 1] by simp
qed

section \<open>The superset test\<close>

text \<open>
  The name \<open>features\<close> is bound neither in the body of \<open>match\<close> nor in the module, so
  every call ends in \<open>NameError\<close> before any pair is compared.
\<close>

lemma match_raises: "match s other = Inl (NameError ''features'')"
  by (simp add: match_def lookup_var_def match_scope_def)

text \<open>
  Claim C3. \<open>s.match(other)\<close>, and the operator \<open>>=\<close>, are to return true exactly when
  the value that \<open>s\<close> stores for each name of \<open>other\<close> equals the value that \<open>other\<close>
  gives. The code does not: on the instance with schema \<open>["voice"]\<close> and data
  \<open>{"voice": 1}\<close>, and \<open>other = {"voice": 1}\<close>, where the claim gives true, both calls
  raise \<open>NameError\<close>.
\<close>

theorem match_unbound_name:
  "match \<lparr>names = [''voice''], data = [(''voice'', 1::int)]\<rparr> [(''voice'', 1)]
     = Inl (NameError ''features'')
   \<and> ge \<lparr>names = [''voice''], data = [(''voice'', 1::int)]\<rparr> [(''voice'', 1)]
     = Inl (NameError ''features'')"
  by (simp add: ge_def match_raises)

section \<open>Construction from a mapping and a notation string\<close>

text \<open>
  The pattern literal of \<open>__init__\<close> opens its first group with the quantifier \<open>+\<close>,
  which has nothing before it to repeat: the pattern does not compile, and
  \<open>__init__\<close> raises for every argument, the default notation string included. The
  two loops of \<open>__init__\<close> are characterised on their own below: the first leaves
  for every schema name the value of \<open>features\<close>, or 0; the second assigns the decoded
  symbol of a match to the name of the match.
\<close>

lemma pattern_rejected: "re_compile ftstr_pattern = Inl (RegexError ''nothing to repeat'')"
  by (simp add: re_compile_def ftstr_pattern_def parse_char_def add_item_def close_frame_def)

lemma Segment_init_raises:
  "Segment_init scan nms features ftstr = Inl (RegexError ''nothing to repeat'')"
  by (simp add: Segment_init_def finditer_def pattern_rejected)

lemma init_fill_lookup:
  "map_of (init_fill nms features) n =
     (if n \<in> set nms
      then Some (case map_of features n of Some v \<Rightarrow> v | None \<Rightarrow> 0)
      else None)"
proof -
  have "map_of (fold (\<lambda>name d. case map_of features name of
                       Some v \<Rightarrow> dict_set d name v
                     | None \<Rightarrow> dict_set d name 0) nms d) n =
     (if n \<in> set nms
      then Some (case map_of features n of Some v \<Rightarrow> v | None \<Rightarrow> 0)
      else map_of d n)" for d
    by (induction nms arbitrary: d) (auto simp: map_of_dict_set split: option.splits)
  then show ?thesis by (simp add: init_fill_def)
qed

lemma s2n_table: "s2n = [(''-'', - 1), (''0'', 0), (''+'', 1)]"
  by (simp add: s2n_def n2s_def dict_of_pairs_def dict_set_def)

lemma apply_matches_one:
  "dict_get s2n v = Inr x \<Longrightarrow> apply_matches ms d = Inr d' \<Longrightarrow>
   apply_matches (ms @ [(v, k)]) d = Inr (dict_set d' k x)"
  by (induction ms d rule: apply_matches.induct) (auto split: sum.splits)

text \<open>
  Claim C1. A token of the notation string, one of the symbols \<open>+\<close>, \<open>0\<close>, \<open>-\<close>
  followed by word characters naming a feature, is to set that feature to the decoded
  symbol, overriding \<open>features\<close> and the default; in particular
  \<open>Segment(["voice"], {"voice": 0}, "+voice")\<close> is to hold \<open>+1\<close> for \<open>voice\<close>. The
  code does not: that construction raises the pattern compiler's error.
\<close>

theorem init_notation_raises:
  "Segment_init scan [''voice''] [(''voice'', 0)] ''+voice'' = Inl (RegexError ''nothing to repeat'')"
  by (rule Segment_init_raises)

text \<open>
  Claim C2. After \<open>Segment(names, features)\<close>, reading a schema name is to give the
  value of \<open>features\<close> for that name, or 0 when \<open>features\<close> has none, so that \<open>data\<close>
  holds every schema name. The code does not: with the default notation string the
  construction \<open>Segment(["voice", "nasal"], {"voice": 1})\<close> raises the pattern
  compiler's error, and no instance comes into being.
\<close>

theorem init_features_raises:
  "Segment_init scan [''voice'', ''nasal''] [(''voice'', 1)] [] = Inl (RegexError ''nothing to repeat'')"
  by (rule Segment_init_raises)

section \<open>Distances\<close>

text \<open>
  On a conformant instance every lookup of \<open>numeric\<close> succeeds, and the sum over the
  zipped vectors is a sum over the positions of the shorter one.
\<close>

lemma numeric_conformant:
  assumes "conformant s"
  shows "numeric s = Inr (map (\<lambda>n. the (map_of (data s) n)) (names s))"
  unfolding numeric_def
proof (rule collect_total)
  fix n assume "n \<in> set (names s)"
  then have "map_of (data s) n \<noteq> None"
    using assms by (simp add: conformant_def list_all_iff)
  then show "dict_get (data s) n = Inr (the (map_of (data s) n))"
    by (auto simp: dict_get_def)
qed

lemma sum_list_zip_nth:
  fixes g :: "'a \<times> 'b \<Rightarrow> int"
  shows "sum_list (map g (zip xs ys)) = (\<Sum>i<min (length xs) (length ys). g (xs ! i, ys ! i))"
proof -
  have "sum_list (map g (zip xs ys)) = (\<Sum>i = 0..<length (zip xs ys). map g (zip xs ys) ! i)"
    by (simp add: sum_list_sum_nth)
  also have "\<dots> = (\<Sum>i = 0..<min (length xs) (length ys). g (xs ! i, ys ! i))"
    by (rule sum.cong) auto
  finally show ?thesis by (simp add: atLeast0LessThan)
qed

lemma count_as_card:
  "(\<Sum>i<(m::nat). if P i then 1 else (0::int)) = int (card {i. i < m \<and> P i})"
proof (induction m)
  case 0
  show ?case by simp
next
  case (Suc m)
  have fin: "finite {i. i < m \<and> P i}" by simp
  have split: "{i. i < Suc m \<and> P i} =
      (if P m then insert m {i. i < m \<and> P i} else {i. i < m \<and> P i})"
    by (auto simp: less_Suc_eq)
  show ?case
    using Suc.IH fin by (simp add: split)
qed

text \<open>
  Claim C6. For two conformant instances \<open>a\<close> and \<open>b\<close> with the same schema,
  \<open>distance(a, b)\<close> is the integer sum, over the positions of the schema, of the
  absolute difference of the two numeric values at that position. When the schema is
  not empty, \<open>norm_distance(a, b)\<close> is the floating-point quotient of exactly that sum
  by \<open>len(names)\<close>; for the empty schema the division raises \<open>ZeroDivisionError\<close>.
  The operator \<open>-\<close> is \<open>norm_distance\<close>. The statement holds for every quotient
  function \<open>fdiv\<close>, so it fixes both the dividend and the divisor that the code
  hands to the division.
\<close>

theorem norm_distance_is_quotient:
  assumes "conformant a" and "conformant b" and "names a = names b"
  shows "\<exists>xs ys. numeric a = Inr xs \<and> numeric b = Inr ys
           \<and> length xs = length (names a) \<and> length ys = length (names a)
           \<and> distance a b = Inr (\<Sum>i<length (names a). \<bar>xs ! i - ys ! i\<bar>)
           \<and> (names a \<noteq> [] \<longrightarrow>
                norm_distance fdiv a b =
                  fdiv (\<Sum>i<length (names a). \<bar>xs ! i - ys ! i\<bar>) (int (length (names a))))
           \<and> (names a = [] \<longrightarrow> norm_distance fdiv a b = Inl ZeroDivisionError)
           \<and> sub fdiv a b = norm_distance fdiv a b"
proof -
  let ?xs = "map (\<lambda>n. the (map_of (data a) n)) (names a)"
  let ?ys = "map (\<lambda>n. the (map_of (data b) n)) (names b)"
  let ?d = "\<Sum>i<length (names a). \<bar>?xs ! i - ?ys ! i\<bar>"
  have na: "numeric a = Inr ?xs" using assms(1) by (rule numeric_conformant)
  have nb: "numeric b = Inr ?ys" using assms(2) by (rule numeric_conformant)
  have len: "length ?xs = length (names a)" "length ?ys = length (names a)"
    using assms(3) by simp_all
  have "sum_list (map (\<lambda>(x, y). \<bar>x - y\<bar>) (zip ?xs ?ys))
          = (\<Sum>i<min (length ?xs) (length ?ys). \<bar>?xs ! i - ?ys ! i\<bar>)"
    using sum_list_zip_nth [of "\<lambda>(x, y). \<bar>x - y\<bar>" ?xs ?ys] by simp
  then have d: "distance a b = Inr ?d"
    using len by (simp add: distance_def na nb del: length_map)
  have q: "names a \<noteq> [] \<longrightarrow> norm_distance fdiv a b = fdiv ?d (int (length (names a)))"
    by (simp add: norm_distance_def d truediv_def)
  have z: "names a = [] \<longrightarrow> norm_distance fdiv a b = Inl ZeroDivisionError"
    by (simp add: norm_distance_def d truediv_def)
  have s: "sub fdiv a b = norm_distance fdiv a b" by (simp add: sub_def)
  show ?thesis
    apply (rule exI [of _ ?xs])
    apply (rule exI [of _ ?ys])
    apply (intro conjI)
           apply (rule na nb len d q z s)+
    done
qed

text \<open>
  The instances below differ by 1 in one of two features, so the quotient is 1/2, a
  binary fraction, which the floating-point division gives without rounding; the
  quotient function is instantiated with the exact one. The empty schema shows the
  division by zero.
\<close>

theorem norm_distance_is_quotient_witness:
  "conformant \<lparr>names = [''voice'', ''nasal''], data = [(''voice'', 1::int), (''nasal'', - 1)]\<rparr>
   \<and> conformant \<lparr>names = [''voice'', ''nasal''], data = [(''voice'', 0::int), (''nasal'', - 1)]\<rparr>
   \<and> names \<lparr>names = [''voice'', ''nasal''], data = [(''voice'', 1::int), (''nasal'', - 1)]\<rparr> \<noteq> []
   \<and> distance \<lparr>names = [''voice'', ''nasal''], data = [(''voice'', 1), (''nasal'', - 1)]\<rparr>
              \<lparr>names = [''voice'', ''nasal''], data = [(''voice'', 0), (''nasal'', - 1)]\<rparr> = Inr 1
   \<and> norm_distance (\<lambda>x y. Inr (real_of_int x / real_of_int y))
              \<lparr>names = [''voice'', ''nasal''], data = [(''voice'', 1), (''nasal'', - 1)]\<rparr>
              \<lparr>names = [''voice'', ''nasal''], data = [(''voice'', 0), (''nasal'', - 1)]\<rparr>
        = Inr (1 / 2)
   \<and> conformant \<lparr>names = [], data = ([] :: int dict)\<rparr>
   \<and> norm_distance (\<lambda>x y. Inr (real_of_int x / real_of_int y))
              \<lparr>names = [], data = []\<rparr> \<lparr>names = [], data = []\<rparr>
        = Inl ZeroDivisionError"
proof -
  let ?f = "\<lambda>x y. Inr (real_of_int x / real_of_int y) :: error + real"
  let ?a = "\<lparr>names = [''voice'', ''nasal''], data = [(''voice'', 1::int), (''nasal'', - 1)]\<rparr>"
  let ?b = "\<lparr>names = [''voice'', ''nasal''], data = [(''voice'', 0::int), (''nasal'', - 1)]\<rparr>"
  let ?e = "\<lparr>names = [], data = ([] :: int dict)\<rparr>"
  have ha: "conformant ?a" by (simp add: conformant_def)
  have hb: "conformant ?b" by (simp add: conformant_def)
  have hn: "names ?a = names ?b" by simp
  have ne: "names ?a \<noteq> []" by simp
  obtain xs ys where n: "numeric ?a = Inr xs" "numeric ?b = Inr ys"
    and d: "distance ?a ?b = Inr (\<Sum>i<length (names ?a). \<bar>xs ! i - ys ! i\<bar>)"
    and q: "names ?a \<noteq> [] \<longrightarrow>
              norm_distance ?f ?a ?b =
                ?f (\<Sum>i<length (names ?a). \<bar>xs ! i - ys ! i\<bar>) (int (length (names ?a)))"
    using norm_distance_is_quotient [OF ha hb hn, of ?f] by blast
  have xs: "xs = [1, - 1]" and ys: "ys = [0, - 1]"
    using n by (simp_all add: numeric_def dict_get_def)
  have two: "{..<2::nat} = {0, 1}" by auto
  have s: "(\<Sum>i<length (names ?a). \<bar>xs ! i - ys ! i\<bar>) = 1"
    by (simp add: xs ys two)
  have nd: "norm_distance ?f ?a ?b = Inr (1 / 2)"
    using q ne unfolding s by simp
  have he: "conformant ?e" by (simp add: conformant_def)
  have hne: "names ?e = names ?e" by simp
  obtain us vs where
    z: "names ?e = [] \<longrightarrow> norm_distance ?f ?e ?e = Inl ZeroDivisionError"
    using norm_distance_is_quotient [OF he he hne, of ?f] by blast
  have nz: "norm_distance ?f ?e ?e = Inl ZeroDivisionError"
    using z by simp
  show ?thesis
    using ha hb ne d nd he nz unfolding s by simp
qed

text \<open>
  Claim C7. For two (conformant) instances whose schemas differ in length,
  \<open>distance\<close> and \<open>hamming_distance\<close> raise no error: they return the sum of absolute
  differences, and the count of differing values, over the first
  \<open>min(len_a, len_b)\<close> positions only, so the trailing values of the longer vector
  are ignored. The statement holds whatever the two lengths are.
\<close>

theorem distance_stops_at_shorter:
  assumes "conformant a" and "conformant b"
  shows "\<exists>xs ys. numeric a = Inr xs \<and> numeric b = Inr ys
           \<and> length xs = length (names a) \<and> length ys = length (names b)
           \<and> distance a b =
               Inr (\<Sum>i<min (length (names a)) (length (names b)). \<bar>xs ! i - ys ! i\<bar>)
           \<and> hamming_distance a b =
               Inr (int (card {i. i < min (length (names a)) (length (names b))
                                  \<and> xs ! i \<noteq> ys ! i}))"
proof -
  let ?xs = "map (\<lambda>n. the (map_of (data a) n)) (names a)"
  let ?ys = "map (\<lambda>n. the (map_of (data b) n)) (names b)"
  let ?m = "min (length (names a)) (length (names b))"
  have na: "numeric a = Inr ?xs" using assms(1) by (rule numeric_conformant)
  have nb: "numeric b = Inr ?ys" using assms(2) by (rule numeric_conformant)
  have m: "min (length ?xs) (length ?ys) = ?m" by simp
  have "sum_list (map (\<lambda>(x, y). \<bar>x - y\<bar>) (zip ?xs ?ys)) = (\<Sum>i<?m. \<bar>?xs ! i - ?ys ! i\<bar>)"
    using sum_list_zip_nth [of "\<lambda>(x, y). \<bar>x - y\<bar>" ?xs ?ys] unfolding m by simp
  then have d: "distance a b = Inr (\<Sum>i<?m. \<bar>?xs ! i - ?ys ! i\<bar>)"
    by (simp add: distance_def na nb del: length_map)
  have "sum_list (map (\<lambda>(x, y). if x \<noteq> y then 1 else (0::int)) (zip ?xs ?ys))
          = (\<Sum>i<?m. if ?xs ! i \<noteq> ?ys ! i then 1 else 0)"
    using sum_list_zip_nth [of "\<lambda>(x, y). if x \<noteq> y then 1 else 0" ?xs ?ys] unfolding m by simp
  also have "\<dots> = int (card {i. i < ?m \<and> ?xs ! i \<noteq> ?ys ! i})"
    by (rule count_as_card)
  finally have h: "hamming_distance a b = Inr (int (card {i. i < ?m \<and> ?xs ! i \<noteq> ?ys ! i}))"
    by (simp add: hamming_distance_def na nb del: length_map)
  show ?thesis
    using na nb d h by (intro exI [of _ ?xs] exI [of _ ?ys]) simp
qed

theorem distance_stops_at_shorter_witness:
  "conformant \<lparr>names = [''voice'', ''nasal'', ''round''],
               data = [(''voice'', 1::int), (''nasal'', - 1), (''round'', 0)]\<rparr>
   \<and> conformant \<lparr>names = [''voice''], data = [(''voice'', - 1::int)]\<rparr>
   \<and> distance \<lparr>names = [''voice'', ''nasal'', ''round''],
               data = [(''voice'', 1), (''nasal'', - 1), (''round'', 0)]\<rparr>
              \<lparr>names = [''voice''], data = [(''voice'', - 1)]\<rparr> = Inr 2
   \<and> hamming_distance \<lparr>names = [''voice'', ''nasal'', ''round''],
               data = [(''voice'', 1::int), (''nasal'', - 1), (''round'', 0)]\<rparr>
              \<lparr>names = [''voice''], data = [(''voice'', - 1)]\<rparr> = Inr 1"
proof -
  let ?a = "\<lparr>names = [''voice'', ''nasal'', ''round''],
               data = [(''voice'', 1::int), (''nasal'', - 1), (''round'', 0)]\<rparr>"
  let ?b = "\<lparr>names = [''voice''], data = [(''voice'', - 1::int)]\<rparr>"
  have ha: "conformant ?a" by (simp add: conformant_def)
  have hb: "conformant ?b" by (simp add: conformant_def)
  obtain xs ys where n: "numeric ?a = Inr xs" "numeric ?b = Inr ys"
    and d: "distance ?a ?b =
              Inr (\<Sum>i<min (length (names ?a)) (length (names ?b)). \<bar>xs ! i - ys ! i\<bar>)"
    and h: "hamming_distance ?a ?b =
              Inr (int (card {i. i < min (length (names ?a)) (length (names ?b))
                                 \<and> xs ! i \<noteq> ys ! i}))"
    using distance_stops_at_shorter [OF ha hb] by blast
  have xs: "xs = [1, - 1, 0]" and ys: "ys = [- 1]"
    using n by (simp_all add: numeric_def dict_get_def)
  have c: "{i. i < min (length (names ?a)) (length (names ?b)) \<and> xs ! i \<noteq> ys ! i} = {0}"
    by (auto simp: xs ys)
  show ?thesis
    using ha hb d h unfolding c by (simp add: xs ys)
qed

section \<open>Symbols and numbers\<close>

text \<open>
  Each of the three values has a symbol in \<open>n2s\<close>, and \<open>s2n\<close> maps that symbol back
  to the value.
\<close>

lemma n2s_get_ternary:
  "x \<in> {- 1, 0, 1} \<Longrightarrow> \<exists>c. n2s_get x = Inr c \<and> dict_get s2n c = Inr x"
  by (auto simp: n2s_get_def n2s_def s2n_table dict_get_def)

lemma collect_roundtrip:
  "(\<And>x. x \<in> set xs \<Longrightarrow> x \<in> {- 1, 0, 1}) \<Longrightarrow>
   \<exists>syms. collect n2s_get xs = Inr syms \<and> length syms = length xs
          \<and> collect (dict_get s2n) syms = Inr xs
          \<and> (\<forall>i<length xs. dict_get s2n (syms ! i) = Inr (xs ! i))"
proof (induction xs)
  case Nil
  show ?case by simp
next
  case (Cons x xs)
  have "x \<in> {- 1, 0, 1}" using Cons.prems by simp
  then obtain c where c: "n2s_get x = Inr c" "dict_get s2n c = Inr x"
    using n2s_get_ternary by blast
  obtain syms where s: "collect n2s_get xs = Inr syms" "length syms = length xs"
      "collect (dict_get s2n) syms = Inr xs"
      "\<forall>i<length xs. dict_get s2n (syms ! i) = Inr (xs ! i)"
    using Cons.IH Cons.prems by auto
  have "\<forall>i<length (x # xs). dict_get s2n ((c # syms) ! i) = Inr ((x # xs) ! i)"
    using c(2) s(4) by (auto simp: nth_Cons split: nat.splits)
  then show ?case
    using c s by (intro exI [of _ "c # syms"]) simp
qed

text \<open>
  Claim C8. For an instance whose stored values for the names of its schema all lie in
  \<open>{-1, 0, +1}\<close>, \<open>string()\<close> yields one symbol per schema name, and mapping these
  symbols back through the symbol-to-number table gives \<open>numeric()\<close>, element for
  element in schema order.
\<close>

theorem string_decodes_to_numeric:
  assumes "ternary_valued s"
  shows "\<exists>syms xs. string s = Inr syms \<and> numeric s = Inr xs
           \<and> length xs = length (names s) \<and> length syms = length xs
           \<and> collect (dict_get s2n) syms = Inr xs
           \<and> (\<forall>i<length xs. dict_get s2n (syms ! i) = Inr (xs ! i))"
proof -
  let ?xs = "map (\<lambda>n. the (map_of (data s) n)) (names s)"
  have v: "\<exists>x. map_of (data s) n = Some x \<and> x \<in> {- 1, 0, 1}" if "n \<in> set (names s)" for n
    using assms that by (auto simp: ternary_valued_def list_all_iff split: option.splits)
  have "conformant s"
    using v by (auto simp: conformant_def list_all_iff)
  then have n: "numeric s = Inr ?xs" by (rule numeric_conformant)
  have "x \<in> {- 1, 0, 1}" if mem: "x \<in> set ?xs" for x
  proof -
    obtain n where "n \<in> set (names s)" "x = the (map_of (data s) n)"
      using mem by auto
    then show ?thesis using v [of n] by auto
  qed
  then obtain syms where "collect n2s_get ?xs = Inr syms" "length syms = length ?xs"
      "collect (dict_get s2n) syms = Inr ?xs"
      "\<forall>i<length ?xs. dict_get s2n (syms ! i) = Inr (?xs ! i)"
    using collect_roundtrip [of ?xs] by blast
  then show ?thesis
    using n by (intro exI [of _ syms] exI [of _ ?xs]) (simp add: string_def)
qed

theorem string_decodes_to_numeric_witness:
  "ternary_valued \<lparr>names = [''voice'', ''nasal'', ''round''],
                   data = [(''voice'', 1), (''nasal'', - 1), (''round'', 0)]\<rparr>
   \<and> string \<lparr>names = [''voice'', ''nasal'', ''round''],
              data = [(''voice'', 1), (''nasal'', - 1), (''round'', 0)]\<rparr> = Inr [''+'', ''-'', ''0'']
   \<and> collect (dict_get s2n) [''+'', ''-'', ''0''] = Inr [1, - 1, 0]
   \<and> numeric \<lparr>names = [''voice'', ''nasal'', ''round''],
               data = [(''voice'', 1::int), (''nasal'', - 1), (''round'', 0)]\<rparr> = Inr [1, - 1, 0]"
proof -
  let ?s = "\<lparr>names = [''voice'', ''nasal'', ''round''],
             data = [(''voice'', 1::int), (''nasal'', - 1), (''round'', 0)]\<rparr>"
  have h: "ternary_valued ?s" by (simp add: ternary_valued_def)
  obtain syms xs where st: "string ?s = Inr syms" and n: "numeric ?s = Inr xs"
    and c: "collect (dict_get s2n) syms = Inr xs"
    using string_decodes_to_numeric [OF h] by blast
  have xs: "xs = [1, - 1, 0]"
    using n by (simp add: numeric_def dict_get_def)
  have syms: "syms = [''+'', ''-'', ''0'']"
    using st by (simp add: string_def numeric_def dict_get_def n2s_get_def n2s_def)
  show ?thesis
    using h st n c unfolding xs syms by simp
qed

section \<open>Unvalidated update\<close>

text \<open>
  \<open>update\<close> leaves \<open>names\<close> alone and stores every pair of its argument. The
  projections read \<open>data\<close> only at the names of the schema, so two instances with the
  same schema and the same values at its names have the same projections.
\<close>

lemma names_update: "names (update s m) = names s"
  by (simp add: update_def)

lemma lookup_update:
  "map_of (data (update s m)) = map_of (data s) ++ map_of (rev m)"
  by (simp add: update_def dict_update_def map_of_fold_set)

lemma lookup_schema_part:
  "n \<in> set (names s) \<Longrightarrow> map_of (rev (schema_part s m)) n = map_of (rev m) n"
proof -
  assume n: "n \<in> set (names s)"
  have "rev (schema_part s m) = filter (\<lambda>x. fst x \<in> set (names s)) (rev m)"
    by (simp add: schema_part_def rev_filter case_prod_unfold)
  then have "map_of (rev (schema_part s m)) = map_of (rev m) |` {k. k \<in> set (names s)}"
    using map_of_filter [of "\<lambda>k. k \<in> set (names s)" "rev m"] by simp
  then show ?thesis using n by simp
qed

lemma update_schema_part_agree:
  "n \<in> set (names s) \<Longrightarrow>
   map_of (data (update s m)) n = map_of (data (update s (schema_part s m))) n"
  by (simp add: lookup_update map_add_def lookup_schema_part)

lemma update_stores:
  assumes "dict_ok m" and "(k, v) \<in> set m"
  shows "getitem (update s m) k = Inr v"
proof -
  have "map_of (rev m) k = Some v"
    using assms by (simp add: map_of_rev_distinct dict_ok_def)
  then show ?thesis
    by (simp add: getitem_def dict_get_def lookup_update)
qed

lemma numeric_schema_values:
  assumes "names s = names t"
    and "\<And>n. n \<in> set (names s) \<Longrightarrow> map_of (data s) n = map_of (data t) n"
  shows "numeric s = numeric t"
  unfolding numeric_def assms(1) [symmetric]
  by (rule collect_cong) (simp add: dict_get_def assms(2))

lemma items_schema_values:
  assumes "names s = names t"
    and "\<And>n. n \<in> set (names s) \<Longrightarrow> map_of (data s) n = map_of (data t) n"
  shows "items s = items t" and "iteritems s = iteritems t"
  unfolding items_def iteritems_def assms(1) [symmetric]
  by (rule collect_cong, simp add: dict_get_def assms(2))+

lemma repr_schema_values:
  assumes "names s = names t"
    and "\<And>n. n \<in> set (names s) \<Longrightarrow> map_of (data s) n = map_of (data t) n"
  shows "repr s = repr t"
proof -
  have "collect (\<lambda>k. case dict_get (data s) k of
                           Inl e \<Rightarrow> Inl e
                         | Inr x \<Rightarrow> (case n2s_get x of Inl e \<Rightarrow> Inl e | Inr c \<Rightarrow> Inr (c, k)))
             (names s)
      = collect (\<lambda>k. case dict_get (data t) k of
                           Inl e \<Rightarrow> Inl e
                         | Inr x \<Rightarrow> (case n2s_get x of Inl e \<Rightarrow> Inl e | Inr c \<Rightarrow> Inr (c, k)))
             (names s)"
    by (rule collect_cong) (simp add: dict_get_def assms(2))
  then show ?thesis by (simp add: repr_def assms(1) [symmetric])
qed

text \<open>
  Claim C9. For an instance \<open>s\<close> and a mapping \<open>m\<close>, which may have keys that are not
  in \<open>s.names\<close>: after \<open>s.update(m)\<close> every pair of \<open>m\<close> is stored in \<open>s.data\<close> as it
  is, whether or not its key is a schema name, and the schema is unchanged. The extra
  keys do not show in \<open>numeric()\<close>, \<open>string()\<close>, iteration, \<open>items()\<close>, \<open>repr\<close> or any
  of the four distance metrics (in either argument position): each gives what it gives
  when only the pairs of \<open>m\<close> whose keys are schema names are merged.
\<close>

theorem update_extra_keys_invisible:
  fixes s other :: "int segment"
  shows "names (update s m) = names s
       \<and> (dict_ok m \<longrightarrow> (\<forall>k v. (k, v) \<in> set m \<longrightarrow> getitem (update s m) k = Inr v))
       \<and> numeric (update s m) = numeric (update s (schema_part s m))
       \<and> string (update s m) = string (update s (schema_part s m))
       \<and> iter (update s m) = iter (update s (schema_part s m))
       \<and> items (update s m) = items (update s (schema_part s m))
       \<and> iteritems (update s m) = iteritems (update s (schema_part s m))
       \<and> repr (update s m) = repr (update s (schema_part s m))
       \<and> distance (update s m) other = distance (update s (schema_part s m)) other
       \<and> distance other (update s m) = distance other (update s (schema_part s m))
       \<and> norm_distance fdiv (update s m) other
           = norm_distance fdiv (update s (schema_part s m)) other
       \<and> norm_distance fdiv other (update s m)
           = norm_distance fdiv other (update s (schema_part s m))
       \<and> hamming_distance (update s m) other
           = hamming_distance (update s (schema_part s m)) other
       \<and> hamming_distance other (update s m)
           = hamming_distance other (update s (schema_part s m))
       \<and> norm_hamming_distance fdiv (update s m) other
           = norm_hamming_distance fdiv (update s (schema_part s m)) other
       \<and> norm_hamming_distance fdiv other (update s m)
           = norm_hamming_distance fdiv other (update s (schema_part s m))"
proof -
  let ?u = "update s m" and ?w = "update s (schema_part s m)"
  have nm: "names ?u = names ?w" by (simp add: names_update)
  have ag: "map_of (data ?u) n = map_of (data ?w) n" if mem: "n \<in> set (names ?u)" for n
  proof -
    have "n \<in> set (names s)" using mem by (simp add: names_update)
    then show ?thesis by (rule update_schema_part_agree)
  qed
  have st: "dict_ok m \<longrightarrow> (\<forall>k v. (k, v) \<in> set m \<longrightarrow> getitem ?u k = Inr v)"
    by (simp add: update_stores)
  have nu: "numeric ?u = numeric ?w" using nm ag by (rule numeric_schema_values)
  have it: "items ?u = items ?w" using nm ag by (rule items_schema_values(1))
  have ii: "iteritems ?u = iteritems ?w" using nm ag by (rule items_schema_values(2))
  have re: "repr ?u = repr ?w" using nm ag by (rule repr_schema_values)
  have sg: "string ?u = string ?w" by (simp add: string_def nu)
  have d1: "distance ?u other = distance ?w other" by (simp add: distance_def nu)
  have d2: "distance other ?u = distance other ?w"
    unfolding distance_def nu by (rule refl)
  have h1: "hamming_distance ?u other = hamming_distance ?w other"
    by (simp add: hamming_distance_def nu)
  have h2: "hamming_distance other ?u = hamming_distance other ?w"
    unfolding hamming_distance_def nu by (rule refl)
  have n1: "norm_distance fdiv ?u other = norm_distance fdiv ?w other"
    unfolding norm_distance_def d1 nm by (rule refl)
  have n2: "norm_distance fdiv other ?u = norm_distance fdiv other ?w"
    by (simp add: norm_distance_def d2)
  have m1: "norm_hamming_distance fdiv ?u other = norm_hamming_distance fdiv ?w other"
    unfolding norm_hamming_distance_def h1 nm by (rule refl)
  have m2: "norm_hamming_distance fdiv other ?u = norm_hamming_distance fdiv other ?w"
    by (simp add: norm_hamming_distance_def h2)
  have i: "iter ?u = iter ?w" by (simp add: iter_def nm)
  have n0: "names ?u = names s" by (rule names_update)
  show ?thesis
    by (intro conjI) (rule n0 st nu sg i it ii re d1 d2 n1 n2 h1 h2 m1 m2)+
qed

theorem update_extra_keys_invisible_witness:
  "dict_ok [(''voice'', - 1::int), (''tone'', 1)]
   \<and> (''tone'', 1) \<in> set [(''voice'', - 1::int), (''tone'', 1)]
   \<and> ''tone'' \<notin> set (names \<lparr>names = [''voice'', ''nasal''], data = [(''voice'', 1::int), (''nasal'', 0)]\<rparr>)
   \<and> getitem (update \<lparr>names = [''voice'', ''nasal''], data = [(''voice'', 1::int), (''nasal'', 0)]\<rparr>
         [(''voice'', - 1), (''tone'', 1)]) ''tone'' = Inr 1
   \<and> schema_part \<lparr>names = [''voice'', ''nasal''], data = [(''voice'', 1::int), (''nasal'', 0)]\<rparr>
         [(''voice'', - 1), (''tone'', 1)] = [(''voice'', - 1)]
   \<and> numeric (update \<lparr>names = [''voice'', ''nasal''], data = [(''voice'', 1::int), (''nasal'', 0)]\<rparr>
         [(''voice'', - 1), (''tone'', 1)])
     = numeric (update \<lparr>names = [''voice'', ''nasal''], data = [(''voice'', 1::int), (''nasal'', 0)]\<rparr>
         [(''voice'', - 1)])
   \<and> numeric (update \<lparr>names = [''voice'', ''nasal''], data = [(''voice'', 1::int), (''nasal'', 0)]\<rparr>
         [(''voice'', - 1), (''tone'', 1)]) = Inr [- 1, 0]"
proof -
  let ?s = "\<lparr>names = [''voice'', ''nasal''], data = [(''voice'', 1::int), (''nasal'', 0)]\<rparr>"
  let ?m = "[(''voice'', - 1::int), (''tone'', 1)]"
  have ok: "dict_ok ?m" by (simp add: dict_ok_def)
  have sp: "schema_part ?s ?m = [(''voice'', - 1)]" by (simp add: schema_part_def)
  have nv: "numeric (update ?s [(''voice'', - 1)]) = Inr [- 1, 0]"
    by (simp add: numeric_def update_def dict_update_def dict_set_def dict_get_def)
  note inst = update_extra_keys_invisible [of ?s ?m]
  have st: "dict_ok ?m \<longrightarrow> (\<forall>k v. (k, v) \<in> set ?m \<longrightarrow> getitem (update ?s ?m) k = Inr v)"
    by (rule inst [THEN conjunct2, THEN conjunct1])
  have mem: "(''tone'', 1) \<in> set ?m" by simp
  have g: "getitem (update ?s ?m) ''tone'' = Inr 1"
    using st [rule_format, OF ok mem] .
  have n: "numeric (update ?s ?m) = numeric (update ?s (schema_part ?s ?m))"
    by (rule inst [THEN conjunct2, THEN conjunct2, THEN conjunct1])
  show ?thesis
    using ok g n nv unfolding sp by simp
qed

end
